theory Spec2Isabelle
  imports Complex_Main "HOL-Library.Word"
begin

section \<open>Driver of the Sycon STM-100 controller (stm100.py)\<close>

text \<open>
  A shallow embedding of the class \<open>STM100\<close> of \<open>stm100.py\<close>. A Python \<open>str\<close> is the
  list of its code points, a \<open>bytes\<close> object a list of 8-bit words. A method of the
  class is a function from the object's state to a result and the state it leaves; an
  exception is the result \<open>Inl\<close>, with the state at the moment it is raised.
\<close>

type_synonym byte = "8 word"
type_synonym pystr = "nat list"

definition ustr :: "string \<Rightarrow> pystr" where
  "ustr s = map of_char s"

text \<open>
  The exceptions the driver raises or lets through. \<open>UnicodeDecodeError\<close> is a subclass of
  \<open>ValueError\<close> in Python, so it is a kind of \<open>ValueError\<close> here and \<open>except ValueError\<close>
  catches it.
\<close>

datatype value_error =
    MessageTooLong      \<comment> \<open>\<open>ValueError("maximum message length is 10!")\<close>, line 199\<close>
  | BytesRange          \<comment> \<open>\<open>bytes()\<close> given an integer outside \<open>range(0, 256)\<close>\<close>
  | UnicodeDecodeError  \<comment> \<open>\<open>bytes.decode()\<close> on bytes that are not UTF-8\<close>
  | Unpack              \<comment> \<open>unpacking a list that has not exactly two elements\<close>
  | IntLiteral          \<comment> \<open>\<open>int()\<close> on text that is no integer literal\<close>

datatype error =
    ValueError value_error
  | IndexError          \<comment> \<open>indexing an empty \<open>str\<close>\<close>
  | TypeError           \<comment> \<open>\<open>ord()\<close> on a \<open>bytes\<close> object whose length is not 1\<close>
  | AttributeError      \<comment> \<open>\<open>append\<close> on \<open>None\<close>\<close>
  | AssertionError      \<comment> \<open>a failed \<open>assert\<close>\<close>
  | RuntimeError        \<comment> \<open>\<open>RuntimeError("Received message without start byte")\<close>\<close>
  | VisaIOError         \<comment> \<open>the timeout of the pyvisa resource\<close>

datatype log_record =
    Debug_send pystr "byte list"   \<comment> \<open>\<open>log.debug(f"Send command: {msg} ({cmd})")\<close>\<close>
  | Error string                   \<comment> \<open>\<open>log.error(...)\<close>\<close>

text \<open>The value of a float getter or of the timer: \<open>math.nan\<close>, a float, or an int.\<close>

datatype 'f number = Nan | PyFloat 'f | PyInt int

record 'f film =
  density :: "'f number"
  zfactor :: "'f number"
  tooling :: "'f number"

text \<open>
  The state of an \<open>STM100\<close> object. The pyvisa resource \<open>self.inst\<close> is held as the bytes
  the instrument delivers, in the order the driver will read them (\<open>inst_rx\<close>), and the
  frames written so far, one entry for each \<open>write_raw\<close> (\<open>inst_tx\<close>); \<open>logged\<close> is what was
  handed to \<open>self.log\<close>; \<open>films_cache\<close> is \<open>self._films\<close>.
\<close>

record 'f STM100 =
  inst_rx :: "byte list"
  inst_tx :: "byte list list"
  logged :: "log_record list"
  statuscode :: "pystr option"
  films_cache :: "'f film list option"

type_synonym ('f, 'a) action = "'f STM100 \<Rightarrow> (error + 'a) \<times> 'f STM100"

definition raise :: "error \<Rightarrow> ('f, 'a) action" where
  "raise e s = (Inl e, s)"

definition return :: "'a \<Rightarrow> ('f, 'a) action" where
  "return x s = (Inr x, s)"

text \<open>Statement sequencing: the second statement runs unless the first one raised.\<close>

definition seq :: "('f, 'a) action \<Rightarrow> ('a \<Rightarrow> ('f, 'b) action) \<Rightarrow> ('f, 'b) action" where
  "seq m f s = (case m s of (Inl e, s') \<Rightarrow> (Inl e, s') | (Inr x, s') \<Rightarrow> f x s')"

subsection \<open>The pyvisa resource\<close>

text \<open>
  \<open>read_bytes(count)\<close> returns exactly \<open>count\<close> bytes, or raises when they do not arrive
  within the timeout; what had arrived is then lost. \<open>write_raw\<close> returns the number of
  bytes written. \<open>flush\<close> discards the read buffer.
\<close>

definition read_bytes :: "nat \<Rightarrow> ('f, byte list) action" where
  "read_bytes n s =
     (if n \<le> length (inst_rx s)
      then (Inr (take n (inst_rx s)), s\<lparr>inst_rx := drop n (inst_rx s)\<rparr>)
      else (Inl VisaIOError, s\<lparr>inst_rx := []\<rparr>))"

definition write_raw :: "byte list \<Rightarrow> ('f, nat) action" where
  "write_raw cmd s = (Inr (length cmd), s\<lparr>inst_tx := inst_tx s @ [cmd]\<rparr>)"

definition flush :: "('f, unit) action" where
  "flush s = (Inr (), s\<lparr>inst_rx := []\<rparr>)"

definition log_debug_send :: "pystr \<Rightarrow> byte list \<Rightarrow> ('f, unit) action" where
  "log_debug_send msg cmd s = (Inr (), s\<lparr>logged := logged s @ [Debug_send msg cmd]\<rparr>)"

definition log_error :: "string \<Rightarrow> ('f, unit) action" where
  "log_error m s = (Inr (), s\<lparr>logged := logged s @ [Error m]\<rparr>)"

subsection \<open>Python built-ins\<close>

text \<open>\<open>bytes(ints)\<close>: every integer has to be in \<open>range(0, 256)\<close>.\<close>

definition py_bytes :: "nat list \<Rightarrow> byte list option" where
  "py_bytes ints = (if list_all (\<lambda>i. i < 256) ints then Some (map of_nat ints) else None)"

text \<open>\<open>ord(b)\<close> of a \<open>bytes\<close> object: its only byte.\<close>

fun ord_bytes :: "byte list \<Rightarrow> nat option" where
  "ord_bytes [b] = Some (unat b)"
| "ord_bytes _ = None"

text \<open>
  \<open>bytes.decode()\<close>: strict UTF-8. A sequence is one byte below 0x80, or a lead byte
  0xC2..0xF4 with one to three continuation bytes 0x80..0xBF, where the first continuation
  byte is restricted after 0xE0 (no overlong form), 0xED (no surrogate), 0xF0 (no overlong
  form) and 0xF4 (nothing above U+10FFFF). \<open>None\<close> is \<open>UnicodeDecodeError\<close>.
\<close>

definition cont :: "nat \<Rightarrow> bool" where
  "cont b = (128 \<le> b \<and> b \<le> 191)"

definition second_ok :: "nat \<Rightarrow> nat \<Rightarrow> bool" where
  "second_ok b b1 =
     (if b = 224 then 160 \<le> b1 \<and> b1 \<le> 191
      else if b = 237 then 128 \<le> b1 \<and> b1 \<le> 159
      else if b = 240 then 144 \<le> b1 \<and> b1 \<le> 191
      else if b = 244 then 128 \<le> b1 \<and> b1 \<le> 143
      else cont b1)"

fun utf8_decode :: "nat list \<Rightarrow> pystr option" where
  "utf8_decode [] = Some []"
| "utf8_decode (b # bs) =
     (if b < 128 then map_option ((#) b) (utf8_decode bs)
      else if 194 \<le> b \<and> b \<le> 223 then
        (case bs of
           b1 # r \<Rightarrow>
             if cont b1
             then map_option ((#) ((b - 192) * 64 + (b1 - 128))) (utf8_decode r)
             else None
         | _ \<Rightarrow> None)
      else if 224 \<le> b \<and> b \<le> 239 then
        (case bs of
           b1 # b2 # r \<Rightarrow>
             if second_ok b b1 \<and> cont b2
             then map_option ((#) ((b - 224) * 4096 + (b1 - 128) * 64 + (b2 - 128)))
                    (utf8_decode r)
             else None
         | _ \<Rightarrow> None)
      else if 240 \<le> b \<and> b \<le> 244 then
        (case bs of
           b1 # b2 # b3 # r \<Rightarrow>
             if second_ok b b1 \<and> cont b2 \<and> cont b3
             then map_option
                    ((#) ((b - 240) * 262144 + (b1 - 128) * 4096 + (b2 - 128) * 64 + (b3 - 128)))
                    (utf8_decode r)
             else None
         | _ \<Rightarrow> None)
      else None)"

definition decode :: "byte list \<Rightarrow> pystr option" where
  "decode bs = utf8_decode (map unat bs)"

text \<open>\<open>needle in haystack\<close> on two strings: the substring test.\<close>

fun py_in :: "pystr \<Rightarrow> pystr \<Rightarrow> bool" where
  "py_in needle [] = (needle = [])"
| "py_in needle (h # hs) = (take (length needle) (h # hs) = needle \<or> py_in needle hs)"

text \<open>\<open>s.split(sep)\<close> with a separator of one character.\<close>

fun py_split :: "nat \<Rightarrow> pystr \<Rightarrow> pystr list" where
  "py_split sep [] = [[]]"
| "py_split sep (c # cs) =
     (if c = sep then [] # py_split sep cs
      else (case py_split sep cs of p # ps \<Rightarrow> (c # p) # ps | [] \<Rightarrow> [[c]]))"

text \<open>
  \<open>int(s)\<close> on a string, base 10: white space around the literal is dropped, a sign may
  lead, and the digits may be grouped by single underscores. \<open>None\<close> is \<open>ValueError\<close>.
  The digits are the ASCII ones; \<open>int\<close> also reads the decimal digits of other scripts,
  which this function rejects.
\<close>

definition is_space :: "nat \<Rightarrow> bool" where
  "is_space c = (c \<in> set ([9, 10, 11, 12, 13, 28, 29, 30, 31, 32, 133, 160, 5760]
       @ [8192 ..< 8203] @ [8232, 8233, 8239, 8287, 12288]))"

definition is_digit :: "nat \<Rightarrow> bool" where
  "is_digit c = (48 \<le> c \<and> c \<le> 57)"

definition strip :: "pystr \<Rightarrow> pystr" where
  "strip s = rev (dropWhile is_space (rev (dropWhile is_space s)))"

fun int_digits :: "nat \<Rightarrow> pystr \<Rightarrow> nat option" where
  "int_digits acc [] = Some acc"
| "int_digits acc (c # cs) =
     (if is_digit c then int_digits (10 * acc + (c - 48)) cs
      else if c = 95 then
        (case cs of
           d # ds \<Rightarrow> if is_digit d then int_digits (10 * acc + (d - 48)) ds else None
         | [] \<Rightarrow> None)
      else None)"

definition int_unsigned :: "pystr \<Rightarrow> nat option" where
  "int_unsigned s =
     (case s of
        d # ds \<Rightarrow> if is_digit d then int_digits (d - 48) ds else None
      | [] \<Rightarrow> None)"

definition py_int :: "pystr \<Rightarrow> int option" where
  "py_int s =
     (case strip s of
        [] \<Rightarrow> None
      | c # cs \<Rightarrow>
          if c = 45 then map_option (\<lambda>n. - int n) (int_unsigned cs)
          else if c = 43 then map_option int (int_unsigned cs)
          else map_option int (int_unsigned (c # cs)))"

text \<open>\<open>int(value)\<close> on a number: truncation towards zero.\<close>

definition py_trunc :: "real \<Rightarrow> int" where
  "py_trunc v = (if 0 \<le> v then \<lfloor>v\<rfloor> else \<lceil>v\<rceil>)"

text \<open>\<open>f"{n:d}"\<close>: the decimal digits, after a minus sign when negative.\<close>

fun decimal :: "nat \<Rightarrow> pystr" where
  "decimal n = (if n < 10 then [48 + n] else decimal (n div 10) @ [48 + n mod 10])"

declare decimal.simps [simp del]

definition format_d :: "int \<Rightarrow> pystr" where
  "format_d i = (if i < 0 then 45 # decimal (nat (- i)) else decimal (nat i))"

subsection \<open>Frames: \<open>_calc_checksum\<close>, \<open>_send\<close>, \<open>_read\<close>, \<open>query\<close>\<close>

definition calc_checksum :: "pystr \<Rightarrow> nat" where
  "calc_checksum msg = sum_list msg mod 256"

definition send :: "pystr \<Rightarrow> ('f, nat) action" where
  "send msg =
     (if length msg > 10 then raise (ValueError MessageTooLong)
      else
        (let chksum = calc_checksum msg in
         case py_bytes ([2, length msg] @ msg @ [chksum]) of
           None \<Rightarrow> raise (ValueError BytesRange)
         | Some cmd \<Rightarrow> seq (log_debug_send msg cmd) (\<lambda>_. write_raw cmd)))"

definition error_msg :: string where
  "error_msg = ''Received message without start byte''"

text \<open>\<open>ord(self.inst.read_bytes(1))\<close> and \<open>self.inst.read_bytes(n).decode()\<close>.\<close>

definition read_ord :: "('f, nat) action" where
  "read_ord = seq (read_bytes 1)
     (\<lambda>b. case ord_bytes b of None \<Rightarrow> raise TypeError | Some n \<Rightarrow> return n)"

definition read_decode :: "nat \<Rightarrow> ('f, pystr) action" where
  "read_decode n = seq (read_bytes n)
     (\<lambda>b. case decode b of None \<Rightarrow> raise (ValueError UnicodeDecodeError) | Some t \<Rightarrow> return t)"

definition read :: "('f, pystr \<times> pystr) action" where
  "read =
     seq (read_decode 1) (\<lambda>s.
       if s = [2] then
         seq read_ord (\<lambda>msgsize.
         seq (read_decode msgsize) (\<lambda>msg.
         seq read_ord (\<lambda>chksum.
         let msg_ok = (chksum = calc_checksum msg) in
         seq (if \<not> msg_ok then log_error ''Checksum mismatch'' else return ()) (\<lambda>_.
         case msg of
           [] \<Rightarrow> raise IndexError
         | c # cs \<Rightarrow> return ([c], cs)))))
       else
         seq (log_error error_msg) (\<lambda>_.
         seq flush (\<lambda>_.
         raise RuntimeError)))"

definition query :: "pystr \<Rightarrow> ('f, pystr) action" where
  "query msg =
     seq (send msg) (\<lambda>_.
     seq read (\<lambda>(ret, ans) s.
     (Inr ans, s\<lparr>statuscode := Some ret\<rparr>)))"

subsection \<open>Typed accessors\<close>

text \<open>\<open>_query_bool\<close>: the assertion is \<open>ans in "!@"\<close>, the result \<open>ans == '!'\<close>.\<close>

definition query_bool :: "pystr \<Rightarrow> ('f, bool) action" where
  "query_bool cmd =
     seq (query cmd) (\<lambda>ans.
     if py_in ans (ustr ''!@'') then return (ans = ustr ''!'')
     else raise AssertionError)"

text \<open>
  \<open>_query_float\<close>. The built-in \<open>float\<close> is the parameter \<open>pyfloat\<close>, \<open>None\<close> where it
  raises \<open>ValueError\<close>. The \<open>try\<close> block holds the call of \<open>query\<close> too, so a
  \<open>ValueError\<close> raised there is caught as well.
\<close>

definition query_float :: "(pystr \<Rightarrow> 'f option) \<Rightarrow> pystr \<Rightarrow> ('f, 'f number) action" where
  "query_float pyfloat cmd s =
     (case query cmd s of
        (Inl (ValueError v), s') \<Rightarrow> (Inr Nan, s')
      | (Inl e, s') \<Rightarrow> (Inl e, s')
      | (Inr ans, s') \<Rightarrow>
          (case pyfloat ans of
             None \<Rightarrow> (Inr Nan, s')
           | Some x \<Rightarrow> (Inr (PyFloat x), s')))"

text \<open>The property \<open>timer\<close>.\<close>

definition timer :: "('f, 'f number) action" where
  "timer =
     seq (query (ustr ''W'')) (\<lambda>ans.
     case ans of
       [] \<Rightarrow> raise IndexError
     | c # cs \<Rightarrow>
         if c = of_char CHR ''>'' then return Nan
         else
           (case py_split (of_char CHR '':'') ans of
              [minutes, seconds] \<Rightarrow>
                (case py_int minutes of
                   None \<Rightarrow> raise (ValueError IntLiteral)
                 | Some m \<Rightarrow>
                     (case py_int seconds of
                        None \<Rightarrow> raise (ValueError IntLiteral)
                      | Some sec \<Rightarrow> return (PyInt (60 * m + sec))))
            | _ \<Rightarrow> raise (ValueError Unpack)))"

text \<open>The setter of the property \<open>setpoint\<close>.\<close>

definition setpoint_set :: "real \<Rightarrow> ('f, unit) action" where
  "setpoint_set v =
     (if v \<ge> 0 \<and> v \<le> 9999999
      then seq (query (ustr ''G='' @ format_d (py_trunc v))) (\<lambda>_. return ())
      else raise AssertionError)"

text \<open>
  \<open>query_films\<close>. The dictionary \<open>params\<close> is walked in the order it was written:
  density \<open>j\<close>, zfactor \<open>k\<close>, tooling \<open>o\<close>. \<open>film_cmd\<close> is the f-string
  \<open>f"{v}{f}?"\<close>, \<open>query_film\<close> the dictionary comprehension of one slot,
  \<open>films_append\<close> the call of \<open>self._films.append\<close> and \<open>films_loop\<close> the
  \<open>for\<close> loop over the slots.
\<close>

definition film_cmd :: "string \<Rightarrow> nat \<Rightarrow> pystr" where
  "film_cmd v f = ustr v @ format_d (int f) @ ustr ''?''"

definition query_film :: "(pystr \<Rightarrow> 'f option) \<Rightarrow> nat \<Rightarrow> ('f, 'f film) action" where
  "query_film pyfloat f =
     seq (query_float pyfloat (film_cmd ''j'' f)) (\<lambda>d.
     seq (query_float pyfloat (film_cmd ''k'' f)) (\<lambda>z.
     seq (query_float pyfloat (film_cmd ''o'' f)) (\<lambda>t.
     return \<lparr>density = d, zfactor = z, tooling = t\<rparr>)))"

definition films_append :: "'f film \<Rightarrow> ('f, unit) action" where
  "films_append d s =
     (case films_cache s of
        None \<Rightarrow> (Inl AttributeError, s)
      | Some l \<Rightarrow> (Inr (), s\<lparr>films_cache := Some (l @ [d])\<rparr>))"

fun films_loop :: "(pystr \<Rightarrow> 'f option) \<Rightarrow> nat list \<Rightarrow> ('f, unit) action" where
  "films_loop pyfloat [] = return ()"
| "films_loop pyfloat (f # fs) =
     seq (query_film pyfloat f) (\<lambda>d.
     seq (films_append d) (\<lambda>_.
     films_loop pyfloat fs))"

definition query_films :: "(pystr \<Rightarrow> 'f option) \<Rightarrow> ('f, 'f film list option) action" where
  "query_films pyfloat s =
     seq (films_loop pyfloat [1 ..< 10]) (\<lambda>_ s'. (Inr (films_cache s'), s'))
       (s\<lparr>films_cache := Some []\<rparr>)"

text \<open>The property \<open>films\<close>.\<close>

definition films :: "(pystr \<Rightarrow> 'f option) \<Rightarrow> ('f, 'f film list option) action" where
  "films pyfloat =
     seq (query_films pyfloat) (\<lambda>_ s. (Inr (films_cache s), s))"

text \<open>
  \<open>__init__\<close>: a fresh object on a resource, given here by the bytes the instrument will
  deliver.
\<close>

definition init :: "byte list \<Rightarrow> 'f STM100" where
  "init bs = \<lparr>inst_rx = bs, inst_tx = [], logged = [], statuscode = None, films_cache = None\<rparr>"

section \<open>Frames on the wire\<close>

lemma calc_checksum_lt: "calc_checksum msg < 256"
  by (simp add: calc_checksum_def)

lemma send_too_long:
  "length msg > 10 \<Longrightarrow> send msg s = (Inl (ValueError MessageTooLong), s)"
  by (simp add: send_def raise_def)

lemma send_ok:
  assumes "length msg \<le> 10" and "\<forall>c\<in>set msg. c < 256"
  shows "send msg s =
    (Inr (length msg + 3),
     s\<lparr>logged := logged s @
          [Debug_send msg
            (2 # of_nat (length msg) # map of_nat msg @ [of_nat (calc_checksum msg)])],
       inst_tx := inst_tx s @
          [2 # of_nat (length msg) # map of_nat msg @ [of_nat (calc_checksum msg)]]\<rparr>)"
  using assms
  by (simp add: send_def py_bytes_def list_all_iff calc_checksum_lt seq_def
      log_debug_send_def write_raw_def Let_def)

lemma read_ord_Cons:
  "inst_rx s = b # rest \<Longrightarrow> read_ord s = (Inr (unat b), s\<lparr>inst_rx := rest\<rparr>)"
  by (simp add: read_ord_def seq_def read_bytes_def return_def)

lemma read_decode_app:
  "inst_rx s = xs @ rest \<Longrightarrow> length xs = n \<Longrightarrow>
   read_decode n s =
     (case decode xs of None \<Rightarrow> Inl (ValueError UnicodeDecodeError) | Some t \<Rightarrow> Inr t,
      s\<lparr>inst_rx := rest\<rparr>)"
  by (simp add: read_decode_def seq_def read_bytes_def return_def raise_def
      split: option.splits)

lemma decode_start: "decode [2] = Some [2]"
  by (simp add: decode_def)

text \<open>
  What \<open>_read\<close> does on a frame whose bytes all arrive and whose payload is UTF-8: the
  received checksum only decides whether an error is logged.
\<close>

lemma read_frame:
  assumes rx: "inst_rx s = 2 # n # payload @ c # rest"
    and len: "unat n = length payload"
    and dec: "decode payload = Some msg"
  shows "read s =
    ((case msg of [] \<Rightarrow> Inl IndexError | ch # cs \<Rightarrow> Inr ([ch], cs)),
     s\<lparr>inst_rx := rest,
       logged := logged s @
         (if unat c = calc_checksum msg then [] else [Error ''Checksum mismatch''])\<rparr>)"
proof -
  have 1: "read_decode (Suc 0) s = (Inr [2], s\<lparr>inst_rx := n # payload @ c # rest\<rparr>)"
    using read_decode_app [of s "[2]" "n # payload @ c # rest" 1] rx
    by (simp add: decode_start)
  have 2: "read_ord (s\<lparr>inst_rx := n # payload @ c # rest\<rparr>) =
      (Inr (length payload), s\<lparr>inst_rx := payload @ c # rest\<rparr>)"
    using read_ord_Cons [of "s\<lparr>inst_rx := n # payload @ c # rest\<rparr>" n "payload @ c # rest"] len
    by simp
  have 3: "read_decode (length payload) (s\<lparr>inst_rx := payload @ c # rest\<rparr>) =
      (Inr msg, s\<lparr>inst_rx := c # rest\<rparr>)"
    using read_decode_app [of "s\<lparr>inst_rx := payload @ c # rest\<rparr>" payload "c # rest"
        "length payload"] dec
    by simp
  have 4: "read_ord (s\<lparr>inst_rx := c # rest\<rparr>) = (Inr (unat c), s\<lparr>inst_rx := rest\<rparr>)"
    using read_ord_Cons [of "s\<lparr>inst_rx := c # rest\<rparr>" c rest] by simp
  show ?thesis
    unfolding read_def
    by (simp add: seq_def 1 2 3 4 log_error_def return_def raise_def split: list.splits)
qed

lemma query_frame:
  assumes "length msg \<le> 10" and "\<forall>c\<in>set msg. c < 256"
    and "inst_rx s = 2 # n # payload @ c # rest"
    and "unat n = length payload"
    and "decode payload = Some (st # body)"
  shows "query msg s =
    (Inr body,
     s\<lparr>logged := logged s @
          Debug_send msg
            (2 # of_nat (length msg) # map of_nat msg @ [of_nat (calc_checksum msg)]) #
          (if unat c = calc_checksum (st # body) then [] else [Error ''Checksum mismatch'']),
       inst_tx := inst_tx s @
          [2 # of_nat (length msg) # map of_nat msg @ [of_nat (calc_checksum msg)]],
       inst_rx := rest,
       statuscode := Some [st]\<rparr>)"
  unfolding query_def seq_def
  by (simp add: send_ok [OF assms(1,2)]
      read_frame [where n = n and payload = payload and c = c and rest = rest
        and msg = "st # body"] assms)

subsection \<open>What \<open>_send\<close> and \<open>_read\<close> leave alone\<close>

lemma send_statuscode: "statuscode (snd (send msg s)) = statuscode s"
  by (simp add: send_def raise_def seq_def log_debug_send_def write_raw_def Let_def
      split: option.splits)

lemma read_statuscode: "statuscode (snd (read s)) = statuscode s"
  by (simp add: read_def seq_def read_decode_def read_ord_def read_bytes_def log_error_def
      flush_def raise_def return_def Let_def split: option.splits list.splits)

subsection \<open>ASCII text and bytes\<close>

lemma unat_of_nat_byte: "n < 256 \<Longrightarrow> unat (of_nat n :: byte) = n"
  by (simp add: unat_of_nat)

lemma utf8_decode_ascii: "\<forall>c\<in>set xs. c < 128 \<Longrightarrow> utf8_decode xs = Some xs"
  by (induction xs) simp_all

lemma decode_bytes_ascii:
  assumes "\<forall>c\<in>set msg. c < 128"
  shows "decode (map of_nat msg) = Some msg"
proof -
  have "map unat (map of_nat msg :: byte list) = msg"
    using assms by (induction msg) (simp_all add: unat_of_nat_byte)
  then show ?thesis using assms by (simp add: decode_def utf8_decode_ascii)
qed

subsection \<open>Splitting and reading integers\<close>

lemma py_split_none: "sep \<notin> set ys \<Longrightarrow> py_split sep ys = [ys]"
  by (induction ys) simp_all

lemma py_split_app: "sep \<notin> set xs \<Longrightarrow> py_split sep (xs @ sep # ys) = xs # py_split sep ys"
  by (induction xs) simp_all

lemma digit_not_space: "is_digit c \<Longrightarrow> \<not> is_space c"
  by (auto simp: is_digit_def is_space_def)

lemma strip_digits:
  assumes "cs \<noteq> []" and "\<forall>c\<in>set cs. is_digit c"
  shows "strip cs = cs"
proof -
  have keep: "dropWhile is_space xs = xs" if "xs \<noteq> []" "\<forall>c\<in>set xs. is_digit c" for xs
    using that by (cases xs) (simp_all add: digit_not_space)
  have "dropWhile is_space (rev cs) = rev cs" using assms by (intro keep) simp_all
  then show ?thesis using assms by (simp add: strip_def keep)
qed

lemma int_digits_all:
  "\<forall>c\<in>set cs. is_digit c \<Longrightarrow>
   int_digits acc cs = Some (foldl (\<lambda>a c. 10 * a + (c - 48)) acc cs)"
  by (induction cs arbitrary: acc) simp_all

lemma py_int_digits:
  assumes "cs \<noteq> []" and "\<forall>c\<in>set cs. is_digit c"
  shows "py_int cs = Some (int (foldl (\<lambda>a c. 10 * a + (c - 48)) 0 cs))"
proof -
  obtain d ds where cs: "cs = d # ds" using assms(1) by (cases cs) auto
  have d: "is_digit d" and ds: "\<forall>c\<in>set ds. is_digit c" using assms(2) cs by auto
  have "d \<noteq> 45" "d \<noteq> 43" using d by (auto simp: is_digit_def)
  then show ?thesis
    using strip_digits [OF assms] cs d int_digits_all [OF ds, of "d - 48"]
    by (simp add: py_int_def int_unsigned_def)
qed

lemma py_int_two_digits:
  assumes "a < 10" and "b < 10"
  shows "py_int [48 + a, 48 + b] = Some (int (10 * a + b))"
  using py_int_digits [of "[48 + a, 48 + b]"] assms by (simp add: is_digit_def)

subsection \<open>Decimal digits\<close>

lemma decimal_digits: "\<forall>c\<in>set (decimal n). 48 \<le> c \<and> c \<le> 57"
proof (induction n rule: decimal.induct)
  case (1 n)
  show ?case
  proof (cases "n < 10")
    case True
    then show ?thesis by (subst decimal.simps) simp
  next
    case False
    then have "\<forall>c\<in>set (decimal (n div 10)). 48 \<le> c \<and> c \<le> 57" using 1 by simp
    moreover have "n mod 10 < 10" by simp
    ultimately show ?thesis using False by (subst decimal.simps) auto
  qed
qed

lemma decimal_length: "0 < k \<Longrightarrow> n < 10 ^ k \<Longrightarrow> length (decimal n) \<le> k"
proof (induction n arbitrary: k rule: decimal.induct)
  case (1 n)
  show ?case
  proof (cases "n < 10")
    case True
    then show ?thesis using 1(2) by (subst decimal.simps) simp
  next
    case False
    then obtain j where k: "k = Suc j" and j: "0 < j"
      using 1(2,3) by (cases k; cases "k - 1") auto
    have "n div 10 < 10 ^ j" using 1(3) k by (simp add: less_mult_imp_div_less mult.commute)
    then have "length (decimal (n div 10)) \<le> j" using 1(1) [OF False j] by simp
    then show ?thesis using False k by (subst decimal.simps) simp
  qed
qed

subsection \<open>Frames written by a query\<close>

lemma read_tx: "inst_tx (snd (read s)) = inst_tx s"
  by (simp add: read_def seq_def read_decode_def read_ord_def read_bytes_def log_error_def
      flush_def raise_def return_def Let_def split: option.splits list.splits)

lemma query_tx:
  assumes "length msg \<le> 10" and "\<forall>c\<in>set msg. c < 256"
  shows "inst_tx (snd (query msg s)) =
    inst_tx s @ [2 # of_nat (length msg) # map of_nat msg @ [of_nat (calc_checksum msg)]]"
proof -
  let ?s1 = "snd (send msg s)"
  have tx1: "inst_tx ?s1 =
      inst_tx s @ [2 # of_nat (length msg) # map of_nat msg @ [of_nat (calc_checksum msg)]]"
    by (simp add: send_ok [OF assms])
  have q: "inst_tx (snd (query msg s)) = inst_tx (snd (read ?s1))"
    by (cases "read ?s1") (auto simp: query_def seq_def send_ok [OF assms] split: sum.splits)
  show ?thesis using q tx1 read_tx [of ?s1] by simp
qed

text \<open>The definitions a concrete exchange unfolds to.\<close>

lemmas run_defs = query_def seq_def send_def init_def ustr_def calc_checksum_def py_bytes_def
        log_debug_send_def write_raw_def read_def read_decode_def read_ord_def read_bytes_def decode_def
        return_def raise_def log_error_def flush_def

subsection \<open>The film table\<close>

lemma read_films_cache: "films_cache (snd (read s)) = films_cache s"
  by (simp add: read_def seq_def read_decode_def read_ord_def read_bytes_def log_error_def
      flush_def raise_def return_def Let_def split: option.splits list.splits)

lemma send_films_cache: "films_cache (snd (send msg s)) = films_cache s"
  by (simp add: send_def raise_def seq_def log_debug_send_def write_raw_def Let_def
      split: option.splits)

lemma query_snd:
  "snd (query msg s) =
    (case send msg s of
       (Inl e, s1) \<Rightarrow> s1
     | (Inr n, s1) \<Rightarrow>
         (case read s1 of
            (Inl e, s2) \<Rightarrow> s2
          | (Inr (ret, ans), s2) \<Rightarrow> s2\<lparr>statuscode := Some ret\<rparr>))"
  by (simp add: query_def seq_def split: prod.splits sum.splits)

lemma query_films_cache: "films_cache (snd (query msg s)) = films_cache s"
proof -
  obtain r1 s1 where s: "send msg s = (r1, s1)" by (cases "send msg s")
  obtain r2 s2 where r: "read s1 = (r2, s2)" by (cases "read s1")
  have "films_cache s1 = films_cache s" using send_films_cache [of msg s] s by simp
  moreover have "films_cache s2 = films_cache s1" using read_films_cache [of s1] r by simp
  ultimately show ?thesis
    by (simp add: query_snd s r split: sum.splits prod.splits)
qed

lemma query_float_snd: "snd (query_float pf cmd s) = snd (query cmd s)"
  by (cases "query cmd s")
    (simp add: query_float_def split: sum.splits error.splits option.splits)

lemma film_cmd_digit: "f < 10 \<Longrightarrow> film_cmd v f = ustr v @ [48 + f, 63]"
  by (simp add: film_cmd_def format_d_def decimal.simps ustr_def)

lemma query_float_tx:
  assumes "length cmd \<le> 10" and "\<forall>c\<in>set cmd. c < 256"
  shows "inst_tx (snd (query_float pf cmd s)) =
    inst_tx s @ [2 # of_nat (length cmd) # map of_nat cmd @ [of_nat (calc_checksum cmd)]]"
  by (simp add: query_float_snd query_tx [OF assms])

lemma query_float_films_cache: "films_cache (snd (query_float pf cmd s)) = films_cache s"
  by (simp add: query_float_snd query_films_cache)

lemma query_film_tx:
  assumes ok: "query_film pf f s = (Inr d, s')" and f: "f < 10"
  shows "inst_tx s' =
      inst_tx s @
      map (\<lambda>cmd. 2 # of_nat (length cmd) # map of_nat cmd @ [of_nat (calc_checksum cmd)])
        [film_cmd ''j'' f, film_cmd ''k'' f, film_cmd ''o'' f] \<and>
    films_cache s' = films_cache s"
proof -
  have v: "length (film_cmd v f) \<le> 10" "\<forall>c\<in>set (film_cmd v f). c < 256"
    if "v \<in> {''j'', ''k'', ''o''}" for v
    using that f by (auto simp: film_cmd_digit ustr_def)
  obtain r1 s1 where q1: "query_float pf (film_cmd ''j'' f) s = (r1, s1)"
    by (cases "query_float pf (film_cmd ''j'' f) s")
  obtain r2 s2 where q2: "query_float pf (film_cmd ''k'' f) s1 = (r2, s2)"
    by (cases "query_float pf (film_cmd ''k'' f) s1")
  obtain r3 s3 where q3: "query_float pf (film_cmd ''o'' f) s2 = (r3, s3)"
    by (cases "query_float pf (film_cmd ''o'' f) s2")
  have "s' = s3"
    using ok q1 q2 q3 by (auto simp: query_film_def seq_def return_def split: sum.splits)
  moreover have "inst_tx s1 = inst_tx s @ [2 # of_nat (length (film_cmd ''j'' f)) #
      map of_nat (film_cmd ''j'' f) @ [of_nat (calc_checksum (film_cmd ''j'' f))]]"
    using query_float_tx [OF v [of "''j''"], of pf s] q1 by simp
  moreover have "inst_tx s2 = inst_tx s1 @ [2 # of_nat (length (film_cmd ''k'' f)) #
      map of_nat (film_cmd ''k'' f) @ [of_nat (calc_checksum (film_cmd ''k'' f))]]"
    using query_float_tx [OF v [of "''k''"], of pf s1] q2 by simp
  moreover have "inst_tx s3 = inst_tx s2 @ [2 # of_nat (length (film_cmd ''o'' f)) #
      map of_nat (film_cmd ''o'' f) @ [of_nat (calc_checksum (film_cmd ''o'' f))]]"
    using query_float_tx [OF v [of "''o''"], of pf s2] q3 by simp
  moreover have "films_cache s1 = films_cache s"
    using query_float_films_cache [of pf "film_cmd ''j'' f" s] q1 by simp
  moreover have "films_cache s2 = films_cache s1"
    using query_float_films_cache [of pf "film_cmd ''k'' f" s1] q2 by simp
  moreover have "films_cache s3 = films_cache s2"
    using query_float_films_cache [of pf "film_cmd ''o'' f" s2] q3 by simp
  ultimately show ?thesis by simp
qed

lemma films_loop_tx:
  assumes "films_loop pf fs s = (Inr u, s')" and "\<forall>f\<in>set fs. f < 10"
    and "films_cache s = Some l"
  shows "inst_tx s' =
      inst_tx s @
      concat (map (\<lambda>f.
        map (\<lambda>cmd. 2 # of_nat (length cmd) # map of_nat cmd @ [of_nat (calc_checksum cmd)])
          [film_cmd ''j'' f, film_cmd ''k'' f, film_cmd ''o'' f]) fs) \<and>
    (\<exists>recs. films_cache s' = Some (l @ recs) \<and> length recs = length fs)"
  using assms
proof (induction fs arbitrary: s l)
  case Nil
  then show ?case by (simp add: return_def)
next
  case (Cons f fs)
  obtain r1 s1 where q: "query_film pf f s = (r1, s1)" by (cases "query_film pf f s")
  then obtain d where r1: "r1 = Inr d"
    using Cons.prems(1) by (cases r1) (simp_all add: seq_def)
  have f: "f < 10" using Cons.prems(2) by simp
  note step = query_film_tx [OF q [unfolded r1] f]
  have c1: "films_cache s1 = Some l" using step Cons.prems(3) by simp
  let ?s2 = "s1\<lparr>films_cache := Some (l @ [d])\<rparr>"
  have rest: "films_loop pf fs ?s2 = (Inr u, s')"
    using Cons.prems(1) q r1 c1 by (simp add: seq_def films_append_def)
  have "\<forall>f\<in>set fs. f < 10" using Cons.prems(2) by simp
  from Cons.IH [OF rest this, of "l @ [d]"] step
  show ?case by auto
qed

text \<open>The same steps when the instrument answers every query with a frame that decodes.\<close>

lemma query_float_reply:
  assumes "length cmd \<le> 10" and "\<forall>c\<in>set cmd. c < 256"
    and rx: "inst_rx s = 2 # of_nat (length p) # p @ chk # rest"
    and len: "length p < 256"
    and dec: "\<exists>st body. decode p = Some (st # body)"
  shows "\<exists>s'. query_float pf cmd s =
        (Inr (case_option Nan PyFloat (pf (tl (the (decode p))))), s') \<and>
      inst_rx s' = rest \<and> films_cache s' = films_cache s"
proof -
  obtain st body where d: "decode p = Some (st # body)" using dec by auto
  have n: "unat (of_nat (length p) :: byte) = length p"
    using len by (simp add: unat_of_nat_byte)
  note q = query_frame [OF assms(1,2) rx n d]
  show ?thesis
    by (simp add: query_float_def q d split: option.splits)
qed

lemma query_film_reply:
  assumes f: "f < 10"
    and rx: "inst_rx s =
      (2 # of_nat (length (fst a)) # fst a @ [snd a]) @
      (2 # of_nat (length (fst b)) # fst b @ [snd b]) @
      (2 # of_nat (length (fst c)) # fst c @ [snd c]) @ rest"
    and a: "length (fst a) < 256" "\<exists>st body. decode (fst a) = Some (st # body)"
    and b: "length (fst b) < 256" "\<exists>st body. decode (fst b) = Some (st # body)"
    and c: "length (fst c) < 256" "\<exists>st body. decode (fst c) = Some (st # body)"
  shows "\<exists>s'. query_film pf f s =
        (Inr \<lparr>density = case_option Nan PyFloat (pf (tl (the (decode (fst a))))),
              zfactor = case_option Nan PyFloat (pf (tl (the (decode (fst b))))),
              tooling = case_option Nan PyFloat (pf (tl (the (decode (fst c)))))\<rparr>, s') \<and>
      inst_rx s' = rest \<and> films_cache s' = films_cache s"
proof -
  have v: "length (film_cmd v f) \<le> 10" "\<forall>c\<in>set (film_cmd v f). c < 256"
    if "v \<in> {''j'', ''k'', ''o''}" for v
    using that f by (auto simp: film_cmd_digit ustr_def)
  have rx1: "inst_rx s = 2 # of_nat (length (fst a)) # fst a @ snd a #
      ((2 # of_nat (length (fst b)) # fst b @ [snd b]) @
       (2 # of_nat (length (fst c)) # fst c @ [snd c]) @ rest)"
    using rx by simp
  obtain s1 where q1: "query_float pf (film_cmd ''j'' f) s =
      (Inr (case_option Nan PyFloat (pf (tl (the (decode (fst a)))))), s1)"
    and rx2: "inst_rx s1 = 2 # of_nat (length (fst b)) # fst b @ snd b #
       ((2 # of_nat (length (fst c)) # fst c @ [snd c]) @ rest)"
    and c1: "films_cache s1 = films_cache s"
    using query_float_reply [OF v [of "''j''"] rx1 a, of pf] by auto
  obtain s2 where q2: "query_float pf (film_cmd ''k'' f) s1 =
      (Inr (case_option Nan PyFloat (pf (tl (the (decode (fst b)))))), s2)"
    and rx3: "inst_rx s2 = 2 # of_nat (length (fst c)) # fst c @ snd c # rest"
    and c2: "films_cache s2 = films_cache s1"
    using query_float_reply [OF v [of "''k''"] rx2 b, of pf] by auto
  obtain s3 where q3: "query_float pf (film_cmd ''o'' f) s2 =
      (Inr (case_option Nan PyFloat (pf (tl (the (decode (fst c)))))), s3)"
    and rx4: "inst_rx s3 = rest"
    and c3: "films_cache s3 = films_cache s2"
    using query_float_reply [OF v [of "''o''"] rx3 c, of pf] by auto
  show ?thesis
    by (simp add: query_film_def seq_def return_def q1 q2 q3 rx4 c1 c2 c3)
qed

lemma films_loop_reply:
  assumes "length rs = 3 * length fs" and "\<forall>f\<in>set fs. f < 10"
    and "\<forall>x\<in>set rs. length (fst x) < 256 \<and> (\<exists>st body. decode (fst x) = Some (st # body))"
    and "inst_rx s = concat (map (\<lambda>x. 2 # of_nat (length (fst x)) # fst x @ [snd x]) rs) @ rest"
    and "films_cache s = Some l"
  shows "\<exists>s'. films_loop pf fs s = (Inr (), s') \<and>
    films_cache s' = Some (l @ map (\<lambda>i.
        \<lparr>density = case_option Nan PyFloat (pf (tl (the (decode (fst (rs ! (3 * i))))))),
         zfactor = case_option Nan PyFloat (pf (tl (the (decode (fst (rs ! (3 * i + 1))))))),
         tooling = case_option Nan PyFloat (pf (tl (the (decode (fst (rs ! (3 * i + 2)))))))\<rparr>)
      [0 ..< length fs]) \<and>
    inst_rx s' = rest"
  using assms
proof (induction fs arbitrary: rs s l)
  case Nil
  then show ?case by (simp add: return_def)
next
  case (Cons f fs)
  obtain a b c rs' where rs: "rs = a # b # c # rs'"
    using Cons.prems(1) by (cases rs; cases "tl rs"; cases "tl (tl rs)") auto
  have f: "f < 10" using Cons.prems(2) by simp
  have rx: "inst_rx s =
      (2 # of_nat (length (fst a)) # fst a @ [snd a]) @
      (2 # of_nat (length (fst b)) # fst b @ [snd b]) @
      (2 # of_nat (length (fst c)) # fst c @ [snd c]) @
      (concat (map (\<lambda>x. 2 # of_nat (length (fst x)) # fst x @ [snd x]) rs') @ rest)"
    using Cons.prems(4) rs by simp
  have ga: "length (fst a) < 256" "\<exists>st body. decode (fst a) = Some (st # body)"
    and gb: "length (fst b) < 256" "\<exists>st body. decode (fst b) = Some (st # body)"
    and gc: "length (fst c) < 256" "\<exists>st body. decode (fst c) = Some (st # body)"
    using Cons.prems(3) rs by auto
  obtain s1 where q: "query_film pf f s =
        (Inr \<lparr>density = case_option Nan PyFloat (pf (tl (the (decode (fst a))))),
              zfactor = case_option Nan PyFloat (pf (tl (the (decode (fst b))))),
              tooling = case_option Nan PyFloat (pf (tl (the (decode (fst c)))))\<rparr>, s1)"
    and rx1: "inst_rx s1 =
      concat (map (\<lambda>x. 2 # of_nat (length (fst x)) # fst x @ [snd x]) rs') @ rest"
    and c1: "films_cache s1 = films_cache s"
    using query_film_reply [OF f rx ga gb gc, of pf] by auto
  let ?d = "\<lparr>density = case_option Nan PyFloat (pf (tl (the (decode (fst a))))),
              zfactor = case_option Nan PyFloat (pf (tl (the (decode (fst b))))),
              tooling = case_option Nan PyFloat (pf (tl (the (decode (fst c)))))\<rparr>"
  let ?s2 = "s1\<lparr>films_cache := Some (l @ [?d])\<rparr>"
  have step: "films_loop pf (f # fs) s = films_loop pf fs ?s2"
    using q c1 Cons.prems(5) by (simp add: seq_def films_append_def)
  have p1: "length rs' = 3 * length fs" using Cons.prems(1) rs by simp
  have p2: "\<forall>f\<in>set fs. f < 10" using Cons.prems(2) by simp
  have p3: "\<forall>x\<in>set rs'. length (fst x) < 256 \<and> (\<exists>st body. decode (fst x) = Some (st # body))"
    using Cons.prems(3) rs by simp
  have p4: "inst_rx ?s2 =
      concat (map (\<lambda>x. 2 # of_nat (length (fst x)) # fst x @ [snd x]) rs') @ rest"
    using rx1 by simp
  have p5: "films_cache ?s2 = Some (l @ [?d])" by simp
  from Cons.IH [OF p1 p2 p3 p4 p5]
  show ?case
    unfolding step
    by (simp add: rs map_upt_Suc del: upt_Suc)
qed

lemma upt_1_10: "[1 ..< 10] = [1, 2, 3, 4, 5, 6, 7, 8, 9 :: nat]"
  by (simp add: upt_conv_Cons)

lemma upt_Suc0_10: "[Suc 0 ..< 10] = [1, 2, 3, 4, 5, 6, 7, 8, 9 :: nat]"
  using upt_1_10 by simp

lemma upt_0_9: "[0 ..< 9] = [0, 1, 2, 3, 4, 5, 6, 7, 8 :: nat]"
  by (simp add: upt_conv_Cons)

lemma films_run:
  "films pf s =
    (case films_loop pf [1 ..< 10] (s\<lparr>films_cache := Some []\<rparr>) of
       (Inl e, s1) \<Rightarrow> (Inl e, s1)
     | (Inr u, s1) \<Rightarrow> (Inr (films_cache s1), s1))"
  by (simp add: films_def query_films_def seq_def split: prod.splits sum.splits)

section \<open>The claims\<close>

text \<open>
  C1, as amended. For every ASCII command of 1 to 10 characters, the frame that \<open>_send\<close>
  writes, handed to \<open>_read\<close> as input, is read back as the command: the status is its
  first character and the body the rest, nothing is left unread, no checksum mismatch is
  logged, and the checksum byte of the frame is the checksum computed over status and body.
\<close>

theorem send_read_roundtrip:
  assumes "msg \<noteq> []" and "length msg \<le> 10" and "\<forall>c\<in>set msg. c < 128"
  shows "read (t\<lparr>inst_rx := last (inst_tx (snd (send msg s)))\<rparr>) =
           (Inr ([hd msg], tl msg), t\<lparr>inst_rx := []\<rparr>) \<and>
         unat (last (last (inst_tx (snd (send msg s))))) = calc_checksum (hd msg # tl msg)"
proof -
  have b: "\<forall>c\<in>set msg. c < 256" using assms(3) by auto
  obtain st body where msg: "msg = st # body" using assms(1) by (cases msg) auto
  let ?F = "2 # of_nat (length msg) # map of_nat msg @ [of_nat (calc_checksum msg)] :: byte list"
  have tx: "last (inst_tx (snd (send msg s))) = ?F"
    by (simp add: send_ok [OF assms(2) b])
  have n: "unat (of_nat (length msg) :: byte) = length (map of_nat msg :: byte list)"
    using assms(2) by (simp add: unat_of_nat_byte)
  have c: "unat (of_nat (calc_checksum msg) :: byte) = calc_checksum msg"
    by (simp add: unat_of_nat_byte calc_checksum_lt)
  have d: "decode (map of_nat msg) = Some (st # body)"
    using decode_bytes_ascii [OF assms(3)] msg by simp
  have "read (t\<lparr>inst_rx := ?F\<rparr>) = (Inr ([st], body), t\<lparr>inst_rx := []\<rparr>)"
    using read_frame [of "t\<lparr>inst_rx := ?F\<rparr>" "of_nat (length msg)" "map of_nat msg"
        "of_nat (calc_checksum msg)" "[]" "st # body", OF _ n d] c msg
    by simp
  then show ?thesis using tx c msg by simp
qed

theorem send_read_roundtrip_witness:
  "read ((init [] :: unit STM100)\<lparr>inst_rx := last (inst_tx (snd (send (ustr ''G=5000'') (init [] :: unit STM100))))\<rparr>) =
      (Inr (ustr ''G'', ustr ''=5000''), init []) \<and>
   unat (last (last (inst_tx (snd (send (ustr ''G=5000'') (init [] :: unit STM100)))))) = calc_checksum (ustr ''G=5000'')"
  using send_read_roundtrip [of "ustr ''G=5000''" "init [] :: unit STM100" "init [] :: unit STM100"]
  by (simp add: ustr_def init_def)

text \<open>
  C1 as stated fails for the empty command: \<open>_send\<close> writes the frame \<open>02 00 00\<close>, and
  \<open>_read\<close> raises \<open>IndexError\<close> on it.
\<close>

theorem empty_command_roundtrip:
  "inst_tx (snd (send [] (init [] :: unit STM100))) = [[2, 0, 0]] \<and>
   fst (read (init (last (inst_tx (snd (send [] (init [] :: unit STM100))))) :: unit STM100)) = Inl IndexError"
  by (simp add: send_def py_bytes_def calc_checksum_def seq_def log_debug_send_def write_raw_def
      read_def init_def read_decode_def read_ord_def read_bytes_def decode_def
      return_def raise_def)







text \<open>
  C4. \<open>_query_bool\<close> asserts \<open>ans in "!@"\<close>, which is Python's substring test: it also
  holds of the empty body and of the body \<open>!@\<close>. On a reply that carries a status character
  and nothing else the getter returns \<open>False\<close> where the claim has it fail.
\<close>

theorem query_bool_empty_body:
  "fst (query_bool (ustr ''K?'') (init [2, 1, 65, 65] :: unit STM100)) = Inr False"
  by (simp add: query_bool_def query_def seq_def send_def init_def ustr_def calc_checksum_def
      py_bytes_def log_debug_send_def write_raw_def read_def read_decode_def read_ord_def
      read_bytes_def decode_def return_def raise_def log_error_def flush_def)

text \<open>
  C5. When the reply to \<open>W\<close> has the body \<open>01:30\<close> the timer getter returns 90; in
  general a body of two digits, a colon and two digits gives 60 times the first number plus
  the second. A body whose first character is \<open>>\<close> gives \<open>nan\<close>. A body that neither
  starts with \<open>>\<close> nor holds a colon makes the getter raise: \<open>IndexError\<close> when the body
  is empty, the \<open>ValueError\<close> of the failed unpacking otherwise.
\<close>

theorem timer_parse:
  assumes "query (ustr ''W'') s = (Inr ans, s')"
  shows "(ans = ustr ''01:30'' \<longrightarrow> timer s = (Inr (PyInt 90), s')) \<and>
    (\<forall>a b c d. a < 10 \<and> b < 10 \<and> c < 10 \<and> d < 10 \<and>
        ans = [48 + a, 48 + b, of_char CHR '':'', 48 + c, 48 + d] \<longrightarrow>
        timer s = (Inr (PyInt (60 * int (10 * a + b) + int (10 * c + d))), s')) \<and>
    (\<forall>cs. ans = of_char CHR ''>'' # cs \<longrightarrow> timer s = (Inr Nan, s')) \<and>
    ((ans = [] \<or> hd ans \<noteq> of_char CHR ''>'') \<and> of_char CHR '':'' \<notin> set ans \<longrightarrow>
        timer s = (Inl (if ans = [] then IndexError else ValueError Unpack), s'))"
proof -
  have mmss: "timer s = (Inr (PyInt (60 * int (10 * a + b) + int (10 * c + d))), s')"
    if "a < 10" "b < 10" "c < 10" "d < 10" "ans = [48 + a, 48 + b, 58, 48 + c, 48 + d]"
    for a b c d
  proof -
    have sp: "py_split 58 ans = [[48 + a, 48 + b], [48 + c, 48 + d]]"
      using py_split_app [of 58 "[48 + a, 48 + b]" "[48 + c, 48 + d]"]
        py_split_none [of 58 "[48 + c, 48 + d]"] that by simp
    show ?thesis
      using assms that sp py_int_two_digits [of a b] py_int_two_digits [of c d]
      by (simp add: timer_def seq_def return_def)
  qed
  have 1: "ans = ustr ''01:30'' \<longrightarrow> timer s = (Inr (PyInt 90), s')"
    using mmss [of 0 1 3 0] by (simp add: ustr_def)
  have 3: "\<forall>cs. ans = of_char CHR ''>'' # cs \<longrightarrow> timer s = (Inr Nan, s')"
    using assms by (simp add: timer_def seq_def return_def)
  have 4: "(ans = [] \<or> hd ans \<noteq> of_char CHR ''>'') \<and> of_char CHR '':'' \<notin> set ans \<longrightarrow>
        timer s = (Inl (if ans = [] then IndexError else ValueError Unpack), s')"
  proof (cases ans)
    case Nil
    then show ?thesis using assms by (simp add: timer_def seq_def raise_def)
  next
    case (Cons x xs)
    show ?thesis
    proof (intro impI, elim conjE)
      assume h: "ans = [] \<or> hd ans \<noteq> of_char CHR ''>''" and n: "of_char CHR '':'' \<notin> set ans"
      have "py_split (of_char CHR '':'') ans = [ans]" using n by (rule py_split_none)
      then show "timer s = (Inl (if ans = [] then IndexError else ValueError Unpack), s')"
        using assms h Cons by (simp add: timer_def seq_def raise_def)
    qed
  qed
  show ?thesis using 1 3 4 mmss by simp
qed

theorem timer_parse_witness:
  "fst (timer (init [2, 6, 65, 48, 49, 58, 51, 48, 63] :: unit STM100)) = Inr (PyInt 90) \<and>
   fst (timer (init [2, 7, 65, 62, 57, 57, 58, 53, 57, 98] :: unit STM100)) = Inr Nan \<and>
   fst (timer (init [2, 8, 65, 98, 97, 100, 116, 101, 120, 116, 40] :: unit STM100)) =
     Inl (ValueError Unpack)"
proof -
  let ?s1 = "init [2, 6, 65, 48, 49, 58, 51, 48, 63] :: unit STM100"
  let ?s2 = "init [2, 7, 65, 62, 57, 57, 58, 53, 57, 98] :: unit STM100"
  let ?s3 = "init [2, 8, 65, 98, 97, 100, 116, 101, 120, 116, 40] :: unit STM100"
  have "fst (query (ustr ''W'') ?s1) = Inr (ustr ''01:30'')"
    by (simp add: run_defs)
  then have h1: "query (ustr ''W'') ?s1 = (Inr (ustr ''01:30''), snd (query (ustr ''W'') ?s1))"
    by (metis prod.collapse)
  have "fst (query (ustr ''W'') ?s2) = Inr (ustr ''>99:59'')"
    by (simp add: run_defs)
  then have h2: "query (ustr ''W'') ?s2 = (Inr (ustr ''>99:59''), snd (query (ustr ''W'') ?s2))"
    by (metis prod.collapse)
  have "fst (query (ustr ''W'') ?s3) = Inr (ustr ''badtext'')"
    by (simp add: run_defs)
  then have h3: "query (ustr ''W'') ?s3 = (Inr (ustr ''badtext''), snd (query (ustr ''W'') ?s3))"
    by (metis prod.collapse)
  show ?thesis
    using timer_parse [OF h1] timer_parse [OF h2] timer_parse [OF h3]
    by (simp add: ustr_def)
qed

text \<open>
  C6. Outside the range from 0 to 9999999 the setpoint setter raises its assertion and
  leaves the object as it was: nothing is written and nothing is read. Inside the range it
  writes exactly one frame, that of the command \<open>G=\<close> followed by the decimal digits of
  the value truncated to an integer; for 5000 this is the command \<open>G=5000\<close>.
\<close>

theorem setpoint_set_range:
  "(v < 0 \<or> 9999999 < v \<longrightarrow> setpoint_set v s = (Inl AssertionError, s)) \<and>
   (0 \<le> v \<and> v \<le> 9999999 \<longrightarrow>
      (let cmd = ustr ''G='' @ decimal (nat \<lfloor>v\<rfloor>) in
       inst_tx (snd (setpoint_set v s)) =
         inst_tx s @ [[2, of_nat (length cmd)] @ map of_nat cmd @ [of_nat (sum_list cmd mod 256)]])) \<and>
   inst_tx (snd (setpoint_set 5000 s)) =
     inst_tx s @ [[2, 6] @ map of_nat (ustr ''G=5000'') @ [of_nat (sum_list (ustr ''G=5000'') mod 256)]]"
proof -
  have out: "v < 0 \<or> 9999999 < v \<longrightarrow> setpoint_set v s = (Inl AssertionError, s)"
    by (auto simp: setpoint_set_def raise_def)
  have inr: "inst_tx (snd (setpoint_set w s)) =
         inst_tx s @ [[2, of_nat (length (ustr ''G='' @ decimal (nat \<lfloor>w\<rfloor>)))] @
           map of_nat (ustr ''G='' @ decimal (nat \<lfloor>w\<rfloor>)) @
           [of_nat (sum_list (ustr ''G='' @ decimal (nat \<lfloor>w\<rfloor>)) mod 256)]]"
    if w: "0 \<le> w" "w \<le> 9999999" for w :: real
  proof -
    let ?cmd = "ustr ''G='' @ decimal (nat \<lfloor>w\<rfloor>)"
    have "\<lfloor>w\<rfloor> \<le> 9999999" using floor_mono [OF w(2)] by simp
    then have "nat \<lfloor>w\<rfloor> \<le> 9999999" by linarith
    then have "nat \<lfloor>w\<rfloor> < 10 ^ 7" by simp
    then have "length (decimal (nat \<lfloor>w\<rfloor>)) \<le> 7" by (intro decimal_length) simp_all
    then have len: "length ?cmd \<le> 10" by (simp add: ustr_def)
    have bytes: "\<forall>c\<in>set ?cmd. c < 256"
      using decimal_digits [of "nat \<lfloor>w\<rfloor>"] by (auto simp: ustr_def)
    have fl: "0 \<le> \<lfloor>w\<rfloor>" using w(1) by simp
    have "setpoint_set w s = seq (query ?cmd) (\<lambda>_. return ()) s"
      using w fl by (simp add: setpoint_set_def py_trunc_def format_d_def)
    then have "inst_tx (snd (setpoint_set w s)) = inst_tx (snd (query ?cmd s))"
      by (cases "query ?cmd s") (auto simp: seq_def return_def split: sum.splits)
    then show ?thesis using query_tx [OF len bytes, of s] by (simp add: calc_checksum_def)
  qed
  have d5000: "decimal 5000 = ustr ''5000''"
    by (simp add: ustr_def decimal.simps)
  have "inst_tx (snd (setpoint_set 5000 s)) =
     inst_tx s @ [[2, 6] @ map of_nat (ustr ''G=5000'') @ [of_nat (sum_list (ustr ''G=5000'') mod 256)]]"
    using inr [of 5000] d5000 by (simp add: ustr_def)
  then show ?thesis using out inr by (simp add: Let_def)
qed

theorem setpoint_set_range_witness:
  "setpoint_set (- 1) (init [] :: unit STM100) = (Inl AssertionError, init []) \<and>
   setpoint_set 10000000 (init [] :: unit STM100) = (Inl AssertionError, init []) \<and>
   inst_tx (snd (setpoint_set 5000 (init [] :: unit STM100))) =
     [[2, 6, 71, 61, 53, 48, 48, 48, 73]] \<and>
   inst_tx (snd (setpoint_set 9999999 (init [] :: unit STM100))) =
     [[2, 9, 71, 61, 57, 57, 57, 57, 57, 57, 57, 19]]"
  using setpoint_set_range [of "- 1" "init [] :: unit STM100"]
    setpoint_set_range [of 10000000 "init [] :: unit STM100"]
    setpoint_set_range [of 9999999 "init [] :: unit STM100"]
  by (simp add: init_def ustr_def decimal.simps)

text \<open>
  C7. When \<open>query\<close> raises, whether in \<open>_send\<close> or in \<open>_read\<close> (a first byte that is not
  0x02, a timeout, a payload that does not decode), \<open>statuscode\<close> is what it was before the
  call: it is assigned only after \<open>_read\<close> has returned.
\<close>

theorem query_failure_keeps_statuscode:
  assumes "query msg s = (Inl e, s')"
  shows "statuscode s' = statuscode s"
proof (cases "send msg s")
  case (Pair r s1)
  have s1: "statuscode s1 = statuscode s"
    using send_statuscode [of msg s] Pair by simp
  show ?thesis
  proof (cases r)
    case (Inl a)
    then show ?thesis using assms Pair s1 by (simp add: query_def seq_def)
  next
    case (Inr n)
    obtain r2 s2 where rd: "read s1 = (r2, s2)" by (cases "read s1")
    have s2: "statuscode s2 = statuscode s1"
      using read_statuscode [of s1] rd by simp
    show ?thesis using assms Pair Inr rd s1 s2
      by (cases r2) (auto simp: query_def seq_def split: prod.splits)
  qed
qed

theorem query_failure_keeps_statuscode_witness:
  "query (ustr ''S'') ((init [21] :: unit STM100)\<lparr>statuscode := Some (ustr ''A'')\<rparr>) =
     (Inl RuntimeError,
      \<lparr>inst_rx = [], inst_tx = [[2, 1, 83, 83]],
       logged = [Debug_send [83] [2, 1, 83, 83], Error error_msg],
       statuscode = Some (ustr ''A''), films_cache = None\<rparr>) \<and>
   statuscode \<lparr>inst_rx = [], inst_tx = [[2, 1, 83, 83]],
       logged = [Debug_send [83] [2, 1, 83, 83], Error error_msg],
       statuscode = Some (ustr ''A''), films_cache = (None :: unit film list option)\<rparr> =
     statuscode ((init [21] :: unit STM100)\<lparr>statuscode := Some (ustr ''A'')\<rparr>)"
proof -
  have h: "query (ustr ''S'') ((init [21] :: unit STM100)\<lparr>statuscode := Some (ustr ''A'')\<rparr>) =
     (Inl RuntimeError,
      \<lparr>inst_rx = [], inst_tx = [[2, 1, 83, 83]],
       logged = [Debug_send [83] [2, 1, 83, 83], Error error_msg],
       statuscode = Some (ustr ''A''), films_cache = None\<rparr>)"
    by (simp add: query_def seq_def send_def init_def ustr_def calc_checksum_def py_bytes_def
        log_debug_send_def write_raw_def read_def read_decode_def read_bytes_def decode_def
        return_def raise_def log_error_def flush_def)
  show ?thesis using h query_failure_keeps_statuscode [OF h] by simp
qed

text \<open>
  C8. A command longer than 10 characters (11 in particular) makes \<open>_send\<close> raise its
  \<open>ValueError\<close> and leaves the object as it was: nothing is written. A command of at most
  10 characters (10 in particular), each of them a byte, is written as the one frame
  \<open>[0x02, len] + command bytes + [checksum]\<close>, the checksum being the sum of the bytes
  modulo 256.
\<close>

theorem send_length_limit:
  "(10 < length msg \<longrightarrow> send msg s = (Inl (ValueError MessageTooLong), s)) \<and>
   (length msg \<le> 10 \<and> (\<forall>c\<in>set msg. c < 256) \<longrightarrow>
      fst (send msg s) = Inr (length msg + 3) \<and>
      inst_tx (snd (send msg s)) =
        inst_tx s @
        [[2, of_nat (length msg)] @ map of_nat msg @ [of_nat (sum_list msg mod 256)]])"
  by (simp add: send_too_long send_ok calc_checksum_def)

theorem send_length_limit_witness:
  "send (ustr ''0123456789A'') (init [] :: unit STM100) =
     (Inl (ValueError MessageTooLong), init []) \<and>
   fst (send (ustr ''0123456789'') (init [] :: unit STM100)) = Inr 13 \<and>
   inst_tx (snd (send (ustr ''0123456789'') (init [] :: unit STM100))) =
     [[2, 10, 48, 49, 50, 51, 52, 53, 54, 55, 56, 57, 13]]"
  using send_length_limit [of "ustr ''0123456789A''" "init [] :: unit STM100"]
    send_length_limit [of "ustr ''0123456789''" "init [] :: unit STM100"]
  by (simp add: ustr_def init_def)

text \<open>
  C9. Whenever the films getter returns, it returns 9 records and has written exactly 27
  frames: the queries \<open>j\<close>, \<open>k\<close>, \<open>o\<close> (density, zfactor, tooling) of slot 1, then those
  of slot 2, up to slot 9, and none for a slot 0. When the instrument answers each of the
  27 queries with a frame whose payload decodes to a status character and a body, the
  getter does return, and record \<open>i\<close> (counted from 0, slot \<open>i + 1\<close>) holds the values read
  from the replies \<open>3 * i\<close>, \<open>3 * i + 1\<close> and \<open>3 * i + 2\<close>, \<open>nan\<close> where \<open>float\<close> rejects
  the body.
\<close>

theorem films_queries:
  "(films pyfloat s = (Inr r, s') \<longrightarrow>
      (\<exists>recs. r = Some recs \<and> length recs = 9) \<and>
      inst_tx s' =
        inst_tx s @
        map (\<lambda>cmd. [2, 3] @ map of_nat cmd @ [of_nat (sum_list cmd mod 256)])
          (map ustr
            [''j1?'', ''k1?'', ''o1?'', ''j2?'', ''k2?'', ''o2?'', ''j3?'', ''k3?'', ''o3?'',
          ''j4?'', ''k4?'', ''o4?'', ''j5?'', ''k5?'', ''o5?'', ''j6?'', ''k6?'', ''o6?'',
          ''j7?'', ''k7?'', ''o7?'', ''j8?'', ''k8?'', ''o8?'', ''j9?'', ''k9?'', ''o9?''])) \<and>
   (length rs = 27 \<and>
    (\<forall>x\<in>set rs. length (fst x) < 256 \<and> (\<exists>st body. decode (fst x) = Some (st # body))) \<and>
    inst_rx s = concat (map (\<lambda>x. [2, of_nat (length (fst x))] @ fst x @ [snd x]) rs) @ rest \<longrightarrow>
      fst (films pyfloat s) =
        Inr (Some (map (\<lambda>i.
          \<lparr>density = case_option Nan PyFloat (pyfloat (tl (the (decode (fst (rs ! (3 * i))))))),
           zfactor = case_option Nan PyFloat (pyfloat (tl (the (decode (fst (rs ! (3 * i + 1))))))),
           tooling = case_option Nan PyFloat (pyfloat (tl (the (decode (fst (rs ! (3 * i + 2)))))))\<rparr>)
          [0 ..< 9])))"
proof (intro conjI impI)
  assume ok: "films pyfloat s = (Inr r, s')"
  let ?s0 = "s\<lparr>films_cache := Some []\<rparr>"
  obtain r1 s1 where l: "films_loop pyfloat [1 ..< 10] ?s0 = (r1, s1)"
    by (cases "films_loop pyfloat [1 ..< 10] ?s0")
  obtain u where r1: "r1 = Inr u" and s1: "s1 = s'" and r: "r = films_cache s'"
    using ok l by (cases r1) (auto simp: films_run)
  have small: "\<forall>f\<in>set [1 ..< 10]. f < (10 :: nat)" by simp
  note loop = films_loop_tx [OF l [unfolded r1 s1] small, of "[]"]
  show "\<exists>recs. r = Some recs \<and> length recs = 9"
    using loop r by auto
  have "inst_tx s' = inst_tx ?s0 @
      concat (map (\<lambda>f.
        map (\<lambda>cmd. 2 # of_nat (length cmd) # map of_nat cmd @ [of_nat (calc_checksum cmd)])
          [film_cmd ''j'' f, film_cmd ''k'' f, film_cmd ''o'' f]) [1 ..< 10])"
    using loop by simp
  then show "inst_tx s' =
        inst_tx s @
        map (\<lambda>cmd. [2, 3] @ map of_nat cmd @ [of_nat (sum_list cmd mod 256)])
          (map ustr
            [''j1?'', ''k1?'', ''o1?'', ''j2?'', ''k2?'', ''o2?'', ''j3?'', ''k3?'', ''o3?'',
          ''j4?'', ''k4?'', ''o4?'', ''j5?'', ''k5?'', ''o5?'', ''j6?'', ''k6?'', ''o6?'',
          ''j7?'', ''k7?'', ''o7?'', ''j8?'', ''k8?'', ''o8?'', ''j9?'', ''k9?'', ''o9?''])"
    by (simp add: upt_Suc0_10 film_cmd_digit ustr_def calc_checksum_def)
next
  assume h: "length rs = 27 \<and>
    (\<forall>x\<in>set rs. length (fst x) < 256 \<and> (\<exists>st body. decode (fst x) = Some (st # body))) \<and>
    inst_rx s = concat (map (\<lambda>x. [2, of_nat (length (fst x))] @ fst x @ [snd x]) rs) @ rest"
  let ?s0 = "s\<lparr>films_cache := Some []\<rparr>"
  have 1: "length rs = 3 * length [1 ..< (10 :: nat)]" using h by simp
  have 2: "\<forall>f\<in>set [1 ..< 10]. f < (10 :: nat)" by simp
  have 3: "\<forall>x\<in>set rs. length (fst x) < 256 \<and> (\<exists>st body. decode (fst x) = Some (st # body))"
    using h by simp
  have 4: "inst_rx ?s0 =
      concat (map (\<lambda>x. 2 # of_nat (length (fst x)) # fst x @ [snd x]) rs) @ rest"
    using h by simp
  have 5: "films_cache ?s0 = Some []" by simp
  from films_loop_reply [OF 1 2 3 4 5, of pyfloat]
  show "fst (films pyfloat s) =
        Inr (Some (map (\<lambda>i.
          \<lparr>density = case_option Nan PyFloat (pyfloat (tl (the (decode (fst (rs ! (3 * i))))))),
           zfactor = case_option Nan PyFloat (pyfloat (tl (the (decode (fst (rs ! (3 * i + 1))))))),
           tooling = case_option Nan PyFloat (pyfloat (tl (the (decode (fst (rs ! (3 * i + 2)))))))\<rparr>)
          [0 ..< 9]))"
    by (auto simp: films_run)
qed

theorem films_queries_witness:
  "(let out = films Some
        (init
         [2, 4, 65, 49, 46, 49, 209, 2, 4, 65, 49, 46, 50, 210, 2, 4, 65, 49, 46, 51, 211,
          2, 4, 65, 50, 46, 49, 210, 2, 4, 65, 50, 46, 50, 211, 2, 4, 65, 50, 46, 51, 212,
          2, 4, 65, 51, 46, 49, 211, 2, 4, 65, 51, 46, 50, 212, 2, 4, 65, 51, 46, 51, 213,
          2, 4, 65, 52, 46, 49, 212, 2, 4, 65, 52, 46, 50, 213, 2, 4, 65, 52, 46, 51, 214,
          2, 4, 65, 53, 46, 49, 213, 2, 4, 65, 53, 46, 50, 214, 2, 4, 65, 53, 46, 51, 215,
          2, 4, 65, 54, 46, 49, 214, 2, 4, 65, 54, 46, 50, 215, 2, 4, 65, 54, 46, 51, 216,
          2, 4, 65, 55, 46, 49, 215, 2, 4, 65, 55, 46, 50, 216, 2, 4, 65, 55, 46, 51, 217,
          2, 4, 65, 56, 46, 49, 216, 2, 4, 65, 56, 46, 50, 217, 2, 4, 65, 56, 46, 51, 218,
          2, 4, 65, 57, 46, 49, 217, 2, 4, 65, 57, 46, 50, 218, 2, 4, 65, 57, 46, 51, 219] :: pystr STM100)
    in fst out =
        Inr (Some
         [\<lparr>density = PyFloat (ustr ''1.1''), zfactor = PyFloat (ustr ''1.2''),
           tooling = PyFloat (ustr ''1.3'')\<rparr>,
          \<lparr>density = PyFloat (ustr ''2.1''), zfactor = PyFloat (ustr ''2.2''),
           tooling = PyFloat (ustr ''2.3'')\<rparr>,
          \<lparr>density = PyFloat (ustr ''3.1''), zfactor = PyFloat (ustr ''3.2''),
           tooling = PyFloat (ustr ''3.3'')\<rparr>,
          \<lparr>density = PyFloat (ustr ''4.1''), zfactor = PyFloat (ustr ''4.2''),
           tooling = PyFloat (ustr ''4.3'')\<rparr>,
          \<lparr>density = PyFloat (ustr ''5.1''), zfactor = PyFloat (ustr ''5.2''),
           tooling = PyFloat (ustr ''5.3'')\<rparr>,
          \<lparr>density = PyFloat (ustr ''6.1''), zfactor = PyFloat (ustr ''6.2''),
           tooling = PyFloat (ustr ''6.3'')\<rparr>,
          \<lparr>density = PyFloat (ustr ''7.1''), zfactor = PyFloat (ustr ''7.2''),
           tooling = PyFloat (ustr ''7.3'')\<rparr>,
          \<lparr>density = PyFloat (ustr ''8.1''), zfactor = PyFloat (ustr ''8.2''),
           tooling = PyFloat (ustr ''8.3'')\<rparr>,
          \<lparr>density = PyFloat (ustr ''9.1''), zfactor = PyFloat (ustr ''9.2''),
           tooling = PyFloat (ustr ''9.3'')\<rparr>]) \<and>
      inst_tx (snd out) =
         [[2, 3, 106, 49, 63, 218], [2, 3, 107, 49, 63, 219], [2, 3, 111, 49, 63, 223],
          [2, 3, 106, 50, 63, 219], [2, 3, 107, 50, 63, 220], [2, 3, 111, 50, 63, 224],
          [2, 3, 106, 51, 63, 220], [2, 3, 107, 51, 63, 221], [2, 3, 111, 51, 63, 225],
          [2, 3, 106, 52, 63, 221], [2, 3, 107, 52, 63, 222], [2, 3, 111, 52, 63, 226],
          [2, 3, 106, 53, 63, 222], [2, 3, 107, 53, 63, 223], [2, 3, 111, 53, 63, 227],
          [2, 3, 106, 54, 63, 223], [2, 3, 107, 54, 63, 224], [2, 3, 111, 54, 63, 228],
          [2, 3, 106, 55, 63, 224], [2, 3, 107, 55, 63, 225], [2, 3, 111, 55, 63, 229],
          [2, 3, 106, 56, 63, 225], [2, 3, 107, 56, 63, 226], [2, 3, 111, 56, 63, 230],
          [2, 3, 106, 57, 63, 226], [2, 3, 107, 57, 63, 227], [2, 3, 111, 57, 63, 231]] \<and>
      length (inst_tx (snd out)) = 27)"
proof -
  let ?s = "init
         [2, 4, 65, 49, 46, 49, 209, 2, 4, 65, 49, 46, 50, 210, 2, 4, 65, 49, 46, 51, 211,
          2, 4, 65, 50, 46, 49, 210, 2, 4, 65, 50, 46, 50, 211, 2, 4, 65, 50, 46, 51, 212,
          2, 4, 65, 51, 46, 49, 211, 2, 4, 65, 51, 46, 50, 212, 2, 4, 65, 51, 46, 51, 213,
          2, 4, 65, 52, 46, 49, 212, 2, 4, 65, 52, 46, 50, 213, 2, 4, 65, 52, 46, 51, 214,
          2, 4, 65, 53, 46, 49, 213, 2, 4, 65, 53, 46, 50, 214, 2, 4, 65, 53, 46, 51, 215,
          2, 4, 65, 54, 46, 49, 214, 2, 4, 65, 54, 46, 50, 215, 2, 4, 65, 54, 46, 51, 216,
          2, 4, 65, 55, 46, 49, 215, 2, 4, 65, 55, 46, 50, 216, 2, 4, 65, 55, 46, 51, 217,
          2, 4, 65, 56, 46, 49, 216, 2, 4, 65, 56, 46, 50, 217, 2, 4, 65, 56, 46, 51, 218,
          2, 4, 65, 57, 46, 49, 217, 2, 4, 65, 57, 46, 50, 218, 2, 4, 65, 57, 46, 51, 219] :: pystr STM100"
  let ?rs = "[([65, 49, 46, 49], 209), ([65, 49, 46, 50], 210), ([65, 49, 46, 51], 211),
          ([65, 50, 46, 49], 210), ([65, 50, 46, 50], 211), ([65, 50, 46, 51], 212),
          ([65, 51, 46, 49], 211), ([65, 51, 46, 50], 212), ([65, 51, 46, 51], 213),
          ([65, 52, 46, 49], 212), ([65, 52, 46, 50], 213), ([65, 52, 46, 51], 214),
          ([65, 53, 46, 49], 213), ([65, 53, 46, 50], 214), ([65, 53, 46, 51], 215),
          ([65, 54, 46, 49], 214), ([65, 54, 46, 50], 215), ([65, 54, 46, 51], 216),
          ([65, 55, 46, 49], 215), ([65, 55, 46, 50], 216), ([65, 55, 46, 51], 217),
          ([65, 56, 46, 49], 216), ([65, 56, 46, 50], 217), ([65, 56, 46, 51], 218),
          ([65, 57, 46, 49], 217), ([65, 57, 46, 50], 218), ([65, 57, 46, 51], 219)] :: (byte list \<times> byte) list"
  let ?recs = "[\<lparr>density = PyFloat (ustr ''1.1''), zfactor = PyFloat (ustr ''1.2''),
           tooling = PyFloat (ustr ''1.3'')\<rparr>,
          \<lparr>density = PyFloat (ustr ''2.1''), zfactor = PyFloat (ustr ''2.2''),
           tooling = PyFloat (ustr ''2.3'')\<rparr>,
          \<lparr>density = PyFloat (ustr ''3.1''), zfactor = PyFloat (ustr ''3.2''),
           tooling = PyFloat (ustr ''3.3'')\<rparr>,
          \<lparr>density = PyFloat (ustr ''4.1''), zfactor = PyFloat (ustr ''4.2''),
           tooling = PyFloat (ustr ''4.3'')\<rparr>,
          \<lparr>density = PyFloat (ustr ''5.1''), zfactor = PyFloat (ustr ''5.2''),
           tooling = PyFloat (ustr ''5.3'')\<rparr>,
          \<lparr>density = PyFloat (ustr ''6.1''), zfactor = PyFloat (ustr ''6.2''),
           tooling = PyFloat (ustr ''6.3'')\<rparr>,
          \<lparr>density = PyFloat (ustr ''7.1''), zfactor = PyFloat (ustr ''7.2''),
           tooling = PyFloat (ustr ''7.3'')\<rparr>,
          \<lparr>density = PyFloat (ustr ''8.1''), zfactor = PyFloat (ustr ''8.2''),
           tooling = PyFloat (ustr ''8.3'')\<rparr>,
          \<lparr>density = PyFloat (ustr ''9.1''), zfactor = PyFloat (ustr ''9.2''),
           tooling = PyFloat (ustr ''9.3'')\<rparr>]"
  have b: "fst (films Some ?s) = Inr (Some ?recs)"
    using films_queries [where pyfloat = Some and s = ?s and rs = ?rs and rest = "[]",
        THEN conjunct2]
    by (simp add: init_def decode_def upt_0_9 ustr_def)
  then have eq: "films Some ?s = (Inr (Some ?recs), snd (films Some ?s))"
    by (metis prod.collapse)
  have a: "inst_tx (snd (films Some ?s)) =
         [[2, 3, 106, 49, 63, 218], [2, 3, 107, 49, 63, 219], [2, 3, 111, 49, 63, 223],
          [2, 3, 106, 50, 63, 219], [2, 3, 107, 50, 63, 220], [2, 3, 111, 50, 63, 224],
          [2, 3, 106, 51, 63, 220], [2, 3, 107, 51, 63, 221], [2, 3, 111, 51, 63, 225],
          [2, 3, 106, 52, 63, 221], [2, 3, 107, 52, 63, 222], [2, 3, 111, 52, 63, 226],
          [2, 3, 106, 53, 63, 222], [2, 3, 107, 53, 63, 223], [2, 3, 111, 53, 63, 227],
          [2, 3, 106, 54, 63, 223], [2, 3, 107, 54, 63, 224], [2, 3, 111, 54, 63, 228],
          [2, 3, 106, 55, 63, 224], [2, 3, 107, 55, 63, 225], [2, 3, 111, 55, 63, 229],
          [2, 3, 106, 56, 63, 225], [2, 3, 107, 56, 63, 226], [2, 3, 111, 56, 63, 230],
          [2, 3, 106, 57, 63, 226], [2, 3, 107, 57, 63, 227], [2, 3, 111, 57, 63, 231]]"
    using films_queries [where pyfloat = Some and s = ?s and rs = ?rs and rest = "[]"
        and r = "Some ?recs" and s' = "snd (films Some ?s)", THEN conjunct1] eq
    by (simp add: init_def ustr_def)
  show ?thesis using a b by (simp add: Let_def)
qed



end
